theory Spec2Isabelle
  imports Main
begin

section \<open>JavaScript values\<close>

text \<open>
  The values the tabs component handles. Objects the component never looks into (virtual
  nodes, slot functions, DOM events) are opaque references; \<open>===\<close> on two values is HOL
  equality. \<open>JNum i\<close> is the number \<open>i\<close> for an integer \<open>i\<close> of magnitude below
  \<open>2^53\<close>, the numbers that are exact and that \<open>String\<close> prints in plain decimal;
  other numbers (fractions, \<open>NaN\<close>, the infinities, larger magnitudes) are not values
  of the model.
\<close>

datatype jsval =
    JUndefined
  | JNull
  | JBool bool
  | JNum int
  | JStr string
  | JRef nat

text \<open>
  An object with string-named properties is a map from the names it has to their values;
  \<open>Object.entries\<close> lists them in order.
\<close>

type_synonym jsobj = "string \<rightharpoonup> jsval"

type_synonym entries = "(string \<times> jsval) list"

text \<open>Reading a property: \<open>undefined\<close> when the object does not have it.\<close>

definition get_prop :: "jsobj \<Rightarrow> string \<Rightarrow> jsval" where
  "get_prop obj k = (case obj k of None \<Rightarrow> JUndefined | Some v \<Rightarrow> v)"

subsection \<open>\<open>String(v)\<close> and template literals\<close>

definition digit_char :: "nat \<Rightarrow> char" where
  "digit_char d = ''0123456789'' ! d"

fun decimal_digits :: "nat \<Rightarrow> string" where
  "decimal_digits n =
     (if n < 10 then [digit_char n]
      else decimal_digits (n div 10) @ [digit_char (n mod 10)])"

declare decimal_digits.simps [simp del]

text \<open>The string of a number that is an integer.\<close>

definition number_to_string :: "int \<Rightarrow> string" where
  "number_to_string i =
     (if i < 0 then CHR ''-'' # decimal_digits (nat (- i)) else decimal_digits (nat i))"

text \<open>
  \<open>String(v)\<close>; an opaque reference prints as an object without a \<open>toString\<close> of its
  own does.
\<close>

fun js_String :: "jsval \<Rightarrow> string" where
  "js_String JUndefined = ''undefined''"
| "js_String JNull = ''null''"
| "js_String (JBool b) = (if b then ''true'' else ''false'')"
| "js_String (JNum i) = number_to_string i"
| "js_String (JStr s) = s"
| "js_String (JRef r) = ''[object Object]''"

text \<open>\<open>!v\<close> is true exactly on the falsy values.\<close>

fun falsy :: "jsval \<Rightarrow> bool" where
  "falsy JUndefined = True"
| "falsy JNull = True"
| "falsy (JBool b) = (\<not> b)"
| "falsy (JNum i) = (i = 0)"
| "falsy (JStr s) = (s = [])"
| "falsy (JRef r) = False"

section \<open>Normalising the child declarations: \<open>parseTabList\<close>\<close>

text \<open>
  What \<open>parseTabList\<close> reads of a child: \<open>node.key\<close>, \<open>node.props\<close> (\<open>None\<close> when it
  is \<open>null\<close> or \<open>undefined\<close>, otherwise its own entries in the order of
  \<open>Object.entries\<close>) and \<open>node.children\<close> (likewise; children that are not a slots object
  have no \<open>tab\<close> or \<open>closeIcon\<close> property and are an object without entries here).
\<close>

record vnode =
  vnode_key :: jsval
  vnode_props :: "entries option"
  vnode_children :: "jsobj option"

text \<open>
  A child is \<open>null\<close>/\<open>undefined\<close>, on which every property read raises a
  \<open>TypeError\<close>, or any other value.
\<close>

datatype child = Nullish | Value vnode

datatype error = TypeError

record Tab =
  key :: jsval
  rest :: jsobj
  node :: vnode
  closeIcon :: jsval
  tab :: jsval
  disabled :: jsval
  forceRender :: jsval
  closable :: jsval
  animated :: jsval
  active :: jsval
  destroyInactiveTabPane :: jsval

text \<open>
  The loop over \<open>Object.entries(props)\<close>: the entries are listed once, before the loop;
  each step deletes the property \<open>k\<close> and assigns the property \<open>camelize(k)\<close>.
  \<open>camelize\<close> is Vue's, a parameter here.
\<close>

fun camelize_loop :: "(string \<Rightarrow> string) \<Rightarrow> entries \<Rightarrow> jsobj \<Rightarrow> jsobj" where
  "camelize_loop camelize [] props = props"
| "camelize_loop camelize ((k, v) # es) props =
     camelize_loop camelize es ((props(k := None))(camelize k \<mapsto> v))"

text \<open>\<open>props\<close> starts as a copy of \<open>node.props || {}\<close>.\<close>

definition camelize_props :: "(string \<Rightarrow> string) \<Rightarrow> vnode \<Rightarrow> jsobj" where
  "camelize_props camelize n =
     (let es = (case vnode_props n of None \<Rightarrow> [] | Some p \<Rightarrow> p)
      in camelize_loop camelize es (map_of es))"

text \<open>\<open>x === '' || x\<close>\<close>

definition empty_or :: "jsval \<Rightarrow> jsval" where
  "empty_or x = (if x = JStr [] then JBool True else x)"

text \<open>
  The object literal of the element branch. \<open>...props\<close> comes after \<open>key\<close> and before
  every other property, so a \<open>key\<close> property of \<open>props\<close> replaces the stringified
  \<open>node.key\<close>, and the properties written after the spread replace those of \<open>props\<close>;
  \<open>rest\<close> keeps the spread properties.
\<close>

definition make_tab :: "(string \<Rightarrow> string) \<Rightarrow> vnode \<Rightarrow> Tab" where
  "make_tab camelize n =
     (let props = camelize_props camelize n;
          slots = (case vnode_children n of None \<Rightarrow> Map.empty | Some s \<Rightarrow> s);
          k = (if vnode_key n \<noteq> JUndefined then JStr (js_String (vnode_key n)) else JUndefined);
          t = (if get_prop props ''tab'' = JUndefined then get_prop slots ''tab''
               else get_prop props ''tab'')
      in \<lparr> key = (case props ''key'' of None \<Rightarrow> k | Some v \<Rightarrow> v),
           rest = props,
           node = n,
           closeIcon = get_prop slots ''closeIcon'',
           tab = t,
           disabled = empty_or (get_prop props ''disabled''),
           forceRender = empty_or (get_prop props ''forceRender''),
           closable = empty_or (get_prop props ''closable''),
           animated = empty_or (get_prop props ''animated''),
           active = empty_or (get_prop props ''active''),
           destroyInactiveTabPane = empty_or (get_prop props ''destroyInactiveTabPane'') \<rparr>)"

text \<open>
  The callback of \<open>children.map\<close>: a tab for a valid element, \<open>null\<close> (\<open>None\<close>) for
  anything else. \<open>isValidElement\<close> is a parameter.
\<close>

definition parse_node ::
  "(child \<Rightarrow> bool) \<Rightarrow> (string \<Rightarrow> string) \<Rightarrow> child \<Rightarrow> error + Tab option" where
  "parse_node isValidElement camelize c =
     (if isValidElement c
      then (case c of Nullish \<Rightarrow> Inl TypeError | Value n \<Rightarrow> Inr (Some (make_tab camelize n)))
      else Inr None)"

text \<open>\<open>Array.prototype.map\<close> with a callback that may raise.\<close>

fun map_raising :: "('a \<Rightarrow> error + 'b) \<Rightarrow> 'a list \<Rightarrow> error + 'b list" where
  "map_raising f [] = Inr []"
| "map_raising f (x # xs) =
     (case f x of
        Inl e \<Rightarrow> Inl e
      | Inr y \<Rightarrow> (case map_raising f xs of Inl e \<Rightarrow> Inl e | Inr ys \<Rightarrow> Inr (y # ys)))"

text \<open>\<open>.filter(tab => tab)\<close>: a tab object is truthy, \<open>null\<close> is not.\<close>

fun filter_truthy :: "'a option list \<Rightarrow> 'a list" where
  "filter_truthy [] = []"
| "filter_truthy (None # ts) = filter_truthy ts"
| "filter_truthy (Some t # ts) = t # filter_truthy ts"

definition parseTabList ::
  "(child \<Rightarrow> bool) \<Rightarrow> (string \<Rightarrow> string) \<Rightarrow> child list \<Rightarrow> error + Tab list" where
  "parseTabList isValidElement camelize children =
     (case map_raising (parse_node isValidElement camelize) children of
        Inl e \<Rightarrow> Inl e
      | Inr ts \<Rightarrow> Inr (filter_truthy ts))"

section \<open>The component \<open>InternalTabs\<close>\<close>

subsection \<open>The animation flags\<close>

text \<open>
  \<open>props.animated\<close>: a boolean, an object (\<open>typeof animated === 'object'\<close>, with its
  properties; \<open>null\<close> is the object without properties, as its spread is empty), or
  anything else.
\<close>

datatype animated_prop = AnimatedBool bool | AnimatedObject jsobj | AnimatedOther

definition mergedAnimated :: "animated_prop \<Rightarrow> jsobj" where
  "mergedAnimated a =
     (if a = AnimatedBool False then [''inkBar'' \<mapsto> JBool False, ''tabPane'' \<mapsto> JBool False]
      else if a = AnimatedBool True then [''inkBar'' \<mapsto> JBool True, ''tabPane'' \<mapsto> JBool True]
      else [''inkBar'' \<mapsto> JBool True, ''tabPane'' \<mapsto> JBool False]
             ++ (case a of AnimatedObject obj \<Rightarrow> obj | _ \<Rightarrow> Map.empty))"

subsection \<open>Props, state and effects\<close>

text \<open>
  The props the state logic reads. A handler prop is an external function, named by a
  number, or is not supplied; \<open>props.id\<close> and \<open>props.type\<close> are \<open>props_id\<close> and
  \<open>props_type\<close>.
\<close>

type_synonym handler = nat

record tabs_props =
  tabs :: "Tab list"
  activeKey :: jsval
  defaultActiveKey :: jsval
  tabPosition :: jsval
  props_id :: jsval
  props_type :: jsval
  hideAdd :: jsval
  onTabClick :: "handler option"
  onChange :: "handler option"
  onEdit :: "handler option"

text \<open>
  What the component does that can be seen from outside or that writes its selection,
  in the order it happens: a call of an external handler with its arguments, a write of
  the active key, a write of the generated id.
\<close>

datatype effect =
    Called handler "jsval list"
  | ActiveKeySet jsval
  | IdSet jsval

record tabs_state =
  innerActiveKey :: jsval
  activeIndex :: int
  mobile :: bool
  innerId :: jsval
  trace :: "effect list"

text \<open>
  Modelled from the spec: \<open>useMergedState\<close> (\<open>_util/hooks/useMergedState\<close>) is not among
  the sources. The spec: a value supplied from outside takes precedence; otherwise the
  internal state is used, which starts from the default value and, when that is unset,
  from the default state value. The setter writes the internal state.
\<close>

definition merged_value :: "jsval \<Rightarrow> jsval \<Rightarrow> jsval" where
  "merged_value supplied inner = (if supplied \<noteq> JUndefined then supplied else inner)"

definition initial_inner :: "jsval \<Rightarrow> jsval \<Rightarrow> jsval" where
  "initial_inner defaultStateValue defaultValue =
     (if defaultValue \<noteq> JUndefined then defaultValue else defaultStateValue)"

definition mergedActiveKey :: "tabs_props \<Rightarrow> tabs_state \<Rightarrow> jsval" where
  "mergedActiveKey props st = merged_value (activeKey props) (innerActiveKey st)"

definition setMergedActiveKey :: "jsval \<Rightarrow> tabs_state \<Rightarrow> tabs_state" where
  "setMergedActiveKey k st = st\<lparr>innerActiveKey := k, trace := trace st @ [ActiveKeySet k]\<rparr>"

definition mergedId :: "tabs_props \<Rightarrow> tabs_state \<Rightarrow> jsval" where
  "mergedId props st = merged_value (props_id props) (innerId st)"

definition setMergedId :: "jsval \<Rightarrow> tabs_state \<Rightarrow> tabs_state" where
  "setMergedId v st = st\<lparr>innerId := v, trace := trace st @ [IdSet v]\<rparr>"

text \<open>\<open>useState\<close>'s setter for \<open>activeIndex\<close>.\<close>

definition setActiveIndex :: "int \<Rightarrow> tabs_state \<Rightarrow> tabs_state" where
  "setActiveIndex i st = st\<lparr>activeIndex := i\<rparr>"

text \<open>\<open>Array.prototype.findIndex\<close>: the first index whose element passes, or \<open>-1\<close>.\<close>

fun findIndex_from :: "('a \<Rightarrow> bool) \<Rightarrow> 'a list \<Rightarrow> int \<Rightarrow> int" where
  "findIndex_from P [] i = - 1"
| "findIndex_from P (x # xs) i = (if P x then i else findIndex_from P xs (i + 1))"

definition findIndex :: "('a \<Rightarrow> bool) \<Rightarrow> 'a list \<Rightarrow> int" where
  "findIndex P xs = findIndex_from P xs 0"

text \<open>\<open>props.tabs[i]?.key\<close>: \<open>undefined\<close> when there is no element at \<open>i\<close>.\<close>

definition key_at :: "Tab list \<Rightarrow> int \<Rightarrow> jsval" where
  "key_at ts i = (if 0 \<le> i \<and> i < int (length ts) then key (ts ! nat i) else JUndefined)"

subsection \<open>The active key\<close>

text \<open>The state after the calls of \<open>useMergedState\<close> and \<open>useState\<close> in \<open>setup\<close>.\<close>

definition init_state :: "tabs_props \<Rightarrow> tabs_state" where
  "init_state props =
     (let inner = initial_inner (key_at (tabs props) 0) (defaultActiveKey props)
      in \<lparr> innerActiveKey = inner,
           activeIndex =
             findIndex (\<lambda>t. key t = merged_value (activeKey props) inner) (tabs props),
           mobile = False,
           innerId = JNull,
           trace = [] \<rparr>)"

text \<open>One run of the effect that reconciles the active key with the tab list.\<close>

definition watchEffect :: "tabs_props \<Rightarrow> tabs_state \<Rightarrow> tabs_state" where
  "watchEffect props st =
     (let newActiveIndex = findIndex (\<lambda>t. key t = mergedActiveKey props st) (tabs props)
      in if newActiveIndex = - 1
         then (let newActiveIndex =
                     max 0 (min (activeIndex st) (int (length (tabs props)) - 1));
                   st1 = setMergedActiveKey (key_at (tabs props) newActiveIndex) st
               in setActiveIndex newActiveIndex st1)
         else setActiveIndex newActiveIndex st)"

subsection \<open>The tab position\<close>

text \<open>\<open>mobile\<close> is the state that the first \<open>onMounted\<close> hook sets from \<open>isMobile()\<close>.\<close>

definition mergedTabPosition :: "tabs_props \<Rightarrow> tabs_state \<Rightarrow> jsval" where
  "mergedTabPosition props st =
     (if mobile st \<and> tabPosition props \<notin> set [JStr ''left'', JStr ''right'']
      then JStr ''top'' else tabPosition props)"

subsection \<open>The accessibility id\<close>

text \<open>
  The second \<open>onMounted\<close> hook, run once when the component is mounted. \<open>uuid\<close> is the
  module's counter, passed in and returned; \<open>node_env\<close> is \<open>process.env.NODE_ENV\<close>.
  The counter is a natural number: a JavaScript number counts exactly up to \<open>2^53\<close>.
\<close>

definition onMounted :: "jsval \<Rightarrow> tabs_props \<Rightarrow> nat \<times> tabs_state \<Rightarrow> nat \<times> tabs_state" where
  "onMounted node_env props = (\<lambda>(uuid, st).
     if falsy (props_id props)
     then (uuid + 1,
           setMergedId
             (JStr (''rc-tabs-'' @ (if node_env = JStr ''test'' then ''test'' else decimal_digits uuid)))
             st)
     else (uuid, st))"

subsection \<open>Events\<close>

text \<open>\<open>f?.(args)\<close> on a handler prop.\<close>

definition optional_call :: "handler option \<Rightarrow> jsval list \<Rightarrow> tabs_state \<Rightarrow> tabs_state" where
  "optional_call f args st =
     (case f of None \<Rightarrow> st | Some h \<Rightarrow> st\<lparr>trace := trace st @ [Called h args]\<rparr>)"


text \<open>
  The \<open>editable\<close> configuration of the render function, present for the type
  \<open>'editable-card'\<close> only. Its \<open>onEdit\<close> takes the edit type and the \<open>key\<close> and
  \<open>event\<close> of the info object; the icons are left out.
\<close>

record editable_config =
  editable_onEdit :: "string \<Rightarrow> jsval \<Rightarrow> jsval \<Rightarrow> tabs_state \<Rightarrow> tabs_state"
  showAdd :: bool

definition editable :: "tabs_props \<Rightarrow> editable_config option" where
  "editable props =
     (if props_type props = JStr ''editable-card''
      then Some \<lparr> editable_onEdit = (\<lambda>editType k event.
                     optional_call (onEdit props)
                       [if editType = ''add'' then event else k, JStr editType]),
                  showAdd = (hideAdd props \<noteq> JBool True) \<rparr>
      else None)"

section \<open>Notions used in the statements\<close>

text \<open>The entries of \<open>node.props || {}\<close>.\<close>

definition node_entries :: "vnode \<Rightarrow> entries" where
  "node_entries n = (case vnode_props n of None \<Rightarrow> [] | Some p \<Rightarrow> p)"

text \<open>
  What a declaration gives an attribute \<open>a\<close>: the value of its last entry whose
  camel-cased name is \<open>a\<close>, if there is one.
\<close>

fun declared :: "(string \<Rightarrow> string) \<Rightarrow> entries \<Rightarrow> string \<Rightarrow> jsval option" where
  "declared camelize [] a = None"
| "declared camelize ((k, v) # es) a =
     (case declared camelize es a of
        Some w \<Rightarrow> Some w
      | None \<Rightarrow> if camelize k = a then Some v else None)"

definition declared_value :: "(string \<Rightarrow> string) \<Rightarrow> vnode \<Rightarrow> string \<Rightarrow> jsval" where
  "declared_value camelize n a =
     (case declared camelize (node_entries n) a of None \<Rightarrow> JUndefined | Some v \<Rightarrow> v)"

text \<open>The six flags of a tab record, each with the name of its attribute.\<close>

definition flag_fields :: "((Tab \<Rightarrow> jsval) \<times> string) list" where
  "flag_fields =
     [(disabled, ''disabled''), (forceRender, ''forceRender''), (closable, ''closable''),
      (animated, ''animated''), (active, ''active''),
      (destroyInactiveTabPane, ''destroyInactiveTabPane'')]"

text \<open>The nodes among the children that pass \<open>isValidElement\<close>, in order.\<close>

fun valid_nodes :: "(child \<Rightarrow> bool) \<Rightarrow> child list \<Rightarrow> vnode list" where
  "valid_nodes ive [] = []"
| "valid_nodes ive (Nullish # cs) = valid_nodes ive cs"
| "valid_nodes ive (Value n # cs) =
     (if ive (Value n) then n # valid_nodes ive cs else valid_nodes ive cs)"

text \<open>The number a string of decimal digits denotes.\<close>

definition digits_value :: "string \<Rightarrow> nat" where
  "digits_value s = foldl (\<lambda>a c. 10 * a + (of_char c - 48)) 0 s"

subsection \<open>Example inputs\<close>

text \<open>A pane declared with the key \<open>k\<close> and nothing else, and its tab record.\<close>

definition example_pane :: "string \<Rightarrow> vnode" where
  "example_pane k = \<lparr> vnode_key = JStr k, vnode_props = None, vnode_children = None \<rparr>"

definition example_tab :: "string \<Rightarrow> Tab" where
  "example_tab k = make_tab (\<lambda>s. s) (example_pane k)"

text \<open>Props with nothing supplied but the defaults; the examples update them.\<close>

definition example_props :: tabs_props where
  "example_props =
     \<lparr> tabs = [], activeKey = JUndefined, defaultActiveKey = JUndefined,
       tabPosition = JStr ''top'', props_id = JUndefined, props_type = JUndefined,
       hideAdd = JBool False, onTabClick = None, onChange = None, onEdit = None \<rparr>"

definition example_state :: tabs_state where
  "example_state =
     \<lparr> innerActiveKey = JUndefined, activeIndex = - 1, mobile = False, innerId = JNull,
       trace = [] \<rparr>"

section \<open>Properties of \<open>parseTabList\<close>\<close>

lemma camelize_loop_declared:
  "camelize a = a \<Longrightarrow>
   camelize_loop camelize es obj a =
     (case declared camelize es a of Some w \<Rightarrow> Some w | None \<Rightarrow> obj a)"
proof (induction es arbitrary: obj)
  case Nil
  show ?case by simp
next
  case (Cons e es)
  obtain k v where e: "e = (k, v)" by (cases e)
  show ?case
  proof (cases "declared camelize es a")
    case (Some w)
    with Cons e show ?thesis by simp
  next
    case None
    with Cons e show ?thesis by auto
  qed
qed

lemma camelize_loop_undeclared:
  "declared camelize es a = None \<Longrightarrow>
   camelize_loop camelize es obj a = (if a \<in> fst ` set es then None else obj a)"
proof (induction es arbitrary: obj)
  case Nil
  show ?case by simp
next
  case (Cons e es)
  obtain k v where e: "e = (k, v)" by (cases e)
  from Cons.prems e have d: "declared camelize es a = None" and c: "camelize k \<noteq> a"
    by (auto split: option.splits if_splits)
  show ?case using Cons.IH [OF d] c e by auto
qed

lemma camelize_props_undeclared:
  "declared camelize (node_entries n) a = None \<Longrightarrow> camelize_props camelize n a = None"
  unfolding camelize_props_def node_entries_def Let_def
  by (simp add: camelize_loop_undeclared map_of_eq_None_iff)

lemma camelize_props_declared:
  assumes "camelize a = a"
  shows "camelize_props camelize n a = declared camelize (node_entries n) a"
proof (cases "declared camelize (node_entries n) a")
  case None
  then show ?thesis by (simp add: camelize_props_undeclared)
next
  case (Some w)
  then show ?thesis using assms
    unfolding camelize_props_def node_entries_def Let_def
    by (simp add: camelize_loop_declared)
qed

lemma get_prop_declared:
  "camelize a = a \<Longrightarrow> get_prop (camelize_props camelize n) a = declared_value camelize n a"
  by (simp add: get_prop_def declared_value_def camelize_props_declared)

lemma make_tab_flags:
  "disabled (make_tab cam n) = empty_or (get_prop (camelize_props cam n) ''disabled'')"
  "forceRender (make_tab cam n) = empty_or (get_prop (camelize_props cam n) ''forceRender'')"
  "closable (make_tab cam n) = empty_or (get_prop (camelize_props cam n) ''closable'')"
  "animated (make_tab cam n) = empty_or (get_prop (camelize_props cam n) ''animated'')"
  "active (make_tab cam n) = empty_or (get_prop (camelize_props cam n) ''active'')"
  "destroyInactiveTabPane (make_tab cam n) =
     empty_or (get_prop (camelize_props cam n) ''destroyInactiveTabPane'')"
  by (simp_all add: make_tab_def Let_def)

lemma key_make_tab_missing:
  assumes "vnode_key n = JUndefined" and "declared camelize (node_entries n) ''key'' = None"
  shows "key (make_tab camelize n) = JUndefined"
  using assms by (simp add: make_tab_def Let_def camelize_props_undeclared)

lemma camelize_props_key:
  assumes "camelize a = a \<or> declared camelize (node_entries n) a = None"
  shows "camelize_props camelize n a = declared camelize (node_entries n) a"
  using assms camelize_props_declared [of camelize a n] camelize_props_undeclared [of camelize n a]
  by auto

lemma make_tab_node: "node (make_tab camelize n) = n"
  by (simp add: make_tab_def Let_def)

lemma make_tab_key:
  assumes "camelize ''key'' = ''key'' \<or> declared camelize (node_entries n) ''key'' = None"
  shows "key (make_tab camelize n) =
           (case declared camelize (node_entries n) ''key'' of
              Some v \<Rightarrow> v
            | None \<Rightarrow> if vnode_key n = JUndefined then JUndefined
                      else JStr (js_String (vnode_key n)))"
  using camelize_props_key [OF assms]
  by (simp add: make_tab_def Let_def split: option.splits)

lemma parse_node_invalid: "\<not> ive c \<Longrightarrow> parse_node ive cam c = Inr None"
  by (simp add: parse_node_def)

lemma parse_node_valid:
  "ive (Value n) \<Longrightarrow> parse_node ive cam (Value n) = Inr (Some (make_tab cam n))"
  by (simp add: parse_node_def)

lemma parse_node_nullish: "ive Nullish \<Longrightarrow> parse_node ive cam Nullish = Inl TypeError"
  by (simp add: parse_node_def)

lemma filter_valid_nodes:
  "ive Nullish \<longrightarrow> Nullish \<notin> set cs \<Longrightarrow> filter ive cs = map Value (valid_nodes ive cs)"
  by (induction ive cs rule: valid_nodes.induct) auto

lemma map_raising_parse_node:
  assumes "ive Nullish \<longrightarrow> Nullish \<notin> set cs"
  shows "\<exists>ts. map_raising (parse_node ive cam) cs = Inr ts \<and>
              filter_truthy ts = map (make_tab cam) (valid_nodes ive cs)"
  using assms
proof (induction cs)
  case Nil
  show ?case by simp
next
  case (Cons c cs)
  then obtain ts where ts: "map_raising (parse_node ive cam) cs = Inr ts"
    and ft: "filter_truthy ts = map (make_tab cam) (valid_nodes ive cs)" by auto
  show ?case
  proof (cases c)
    case Nullish
    with Cons.prems ts ft show ?thesis by (simp add: parse_node_invalid)
  next
    case (Value n)
    show ?thesis
    proof (cases "ive (Value n)")
      case True
      with Value ts ft show ?thesis by (simp add: parse_node_valid)
    next
      case False
      with Value ts ft show ?thesis by (simp add: parse_node_invalid)
    qed
  qed
qed

lemma parseTabList_valid_nodes:
  assumes "ive Nullish \<longrightarrow> Nullish \<notin> set cs"
  shows "parseTabList ive cam cs = Inr (map (make_tab cam) (valid_nodes ive cs))"
proof -
  from assms map_raising_parse_node [of ive cs cam]
  obtain ts where "map_raising (parse_node ive cam) cs = Inr ts"
    and "filter_truthy ts = map (make_tab cam) (valid_nodes ive cs)" by blast
  then show ?thesis by (simp add: parseTabList_def)
qed

lemma error_is_TypeError: "(e :: error) = TypeError"
  by (cases e)

lemma parseTabList_raises:
  "ive Nullish \<Longrightarrow> Nullish \<in> set cs \<Longrightarrow> parseTabList ive cam cs = Inl TypeError"
proof (induction cs)
  case Nil
  then show ?case by simp
next
  case (Cons c cs)
  show ?case
  proof (cases "c = Nullish")
    case True
    with Cons.prems show ?thesis by (simp add: parseTabList_def parse_node_nullish)
  next
    case False
    with Cons have ih: "parseTabList ive cam cs = Inl TypeError" by simp
    then have "map_raising (parse_node ive cam) cs = Inl TypeError"
      by (simp add: parseTabList_def split: sum.splits)
    then show ?thesis
      by (cases "parse_node ive cam c") (simp_all add: parseTabList_def error_is_TypeError)
  qed
qed

lemma parseTabList_Inr:
  assumes "parseTabList ive cam cs = Inr ts"
  shows "filter ive cs = map Value (valid_nodes ive cs) \<and> ts = map (make_tab cam) (valid_nodes ive cs)"
proof -
  have ok: "ive Nullish \<longrightarrow> Nullish \<notin> set cs"
    using assms parseTabList_raises [of ive cs cam] by auto
  with assms show ?thesis
    by (simp add: parseTabList_valid_nodes filter_valid_nodes)
qed

lemma key_make_tab_null:
  "vnode_key n = JNull \<Longrightarrow> declared camelize (node_entries n) ''key'' = None \<Longrightarrow>
   key (make_tab camelize n) = JStr ''null''"
  by (simp add: make_tab_def Let_def camelize_props_undeclared)

text \<open>
  C4: in every tab record that \<open>parseTabList\<close> returns, each of the flags
  \<open>disabled\<close>, \<open>forceRender\<close>, \<open>closable\<close>, \<open>animated\<close>, \<open>active\<close> and
  \<open>destroyInactiveTabPane\<close> is \<open>true\<close> when the child declares the attribute as the
  empty string, and is the declared value unchanged otherwise (\<open>undefined\<close> when the
  attribute is not declared). The names of the six attributes have no hyphen, so
  \<open>camelize\<close> leaves them as they are.
\<close>

theorem parseTabList_empty_string_flag:
  assumes fixed: "\<forall>(f, a) \<in> set flag_fields. camelize a = a"
    and parsed: "parseTabList isValidElement camelize children = Inr ts"
  shows "list_all2
           (\<lambda>c t. \<exists>n. c = Value n \<and>
              (\<forall>(f, a) \<in> set flag_fields.
                 f t = (if declared_value camelize n a = JStr [] then JBool True
                        else declared_value camelize n a)))
           (filter isValidElement children) ts"
proof -
  let ?ns = "valid_nodes isValidElement children"
  from parseTabList_Inr [OF parsed]
  have f: "filter isValidElement children = map Value ?ns"
    and t: "ts = map (make_tab camelize) ?ns" by simp_all
  have flags: "\<forall>(f, a) \<in> set flag_fields.
                 f (make_tab camelize n) =
                   (if declared_value camelize n a = JStr [] then JBool True
                    else declared_value camelize n a)" for n
    using fixed
    by (simp add: flag_fields_def make_tab_flags get_prop_declared empty_or_def)
  show ?thesis
    unfolding f t by (simp add: list_all2_map1 list_all2_map2 list.rel_refl flags)
qed

text \<open>
  A pane declared with \<open>force-render=""\<close>, \<open>closable=""\<close> and \<open>disabled\<close> false, after
  a \<open>null\<close> child.
\<close>

theorem parseTabList_empty_string_flag_witness:
  "(let camelize = (\<lambda>k. if k = ''force-render'' then ''forceRender'' else k);
        isValidElement = (\<lambda>c. c \<noteq> Nullish);
        n = \<lparr> vnode_key = JStr ''1'',
              vnode_props = Some [(''force-render'', JStr []), (''disabled'', JBool False),
                                  (''closable'', JStr [])],
              vnode_children = None \<rparr>
    in (\<forall>(f, a) \<in> set flag_fields. camelize a = a) \<and>
       parseTabList isValidElement camelize [Nullish, Value n] = Inr [make_tab camelize n] \<and>
       forceRender (make_tab camelize n) = JBool True \<and>
       closable (make_tab camelize n) = JBool True \<and>
       disabled (make_tab camelize n) = JBool False \<and>
       active (make_tab camelize n) = JUndefined)"
proof -
  define camelize :: "string \<Rightarrow> string"
    where "camelize = (\<lambda>k. if k = ''force-render'' then ''forceRender'' else k)"
  define isValidElement where "isValidElement = (\<lambda>c. c \<noteq> Nullish)"
  define n where "n = \<lparr> vnode_key = JStr ''1'',
              vnode_props = Some [(''force-render'', JStr []), (''disabled'', JBool False),
                                  (''closable'', JStr [])],
              vnode_children = None \<rparr>"
  have fixed: "\<forall>(f, a) \<in> set flag_fields. camelize a = a"
    by (simp add: flag_fields_def camelize_def)
  have parsed: "parseTabList isValidElement camelize [Nullish, Value n] = Inr [make_tab camelize n]"
    by (simp add: parseTabList_def parse_node_def isValidElement_def)
  have dv: "declared_value camelize n ''forceRender'' = JStr []"
    "declared_value camelize n ''closable'' = JStr []"
    "declared_value camelize n ''disabled'' = JBool False"
    "declared_value camelize n ''active'' = JUndefined"
    by (simp_all add: declared_value_def node_entries_def n_def camelize_def)
  from parseTabList_empty_string_flag [OF fixed parsed]
  have "forceRender (make_tab camelize n) = JBool True \<and>
       closable (make_tab camelize n) = JBool True \<and>
       disabled (make_tab camelize n) = JBool False \<and>
       active (make_tab camelize n) = JUndefined"
    by (simp add: isValidElement_def flag_fields_def dv)
  with fixed parsed show ?thesis
    unfolding Let_def camelize_def isValidElement_def n_def by simp
qed

text \<open>
  C10, as stated, fails on the key: a pane whose \<open>node.key\<close> is \<open>null\<close>, with no
  \<open>key\<close> among its props, gets the key \<open>'null'\<close>, a string, not an unset key.
\<close>

theorem parseTabList_null_key_counterexample:
  "map_sum (\<lambda>e. e) (map key)
     (parseTabList (\<lambda>c. c \<noteq> Nullish) (\<lambda>k. k)
        [Value \<lparr> vnode_key = JNull, vnode_props = None, vnode_children = None \<rparr>])
   = Inr [JStr ''null'']"
  by (simp add: parseTabList_def parse_node_def make_tab_def camelize_props_def Let_def)

text \<open>
  C10, amended: when \<open>isValidElement\<close> rejects \<open>null\<close> and \<open>undefined\<close>,
  \<open>parseTabList\<close> raises on no list of children. It returns one tab record for each
  child that passes \<open>isValidElement\<close>, in the order of the input, and the record carries
  its node. When no \<open>key\<close> is declared among the props, the key of the record is
  \<open>undefined\<close> if \<open>node.key\<close> is \<open>undefined\<close>, and \<open>String(node.key)\<close> otherwise,
  so \<open>'null'\<close> for the key \<open>null\<close>; a declared \<open>key\<close> replaces it.
\<close>

theorem parseTabList_total:
  assumes "\<not> isValidElement Nullish"
  shows "\<exists>ts. parseTabList isValidElement camelize children = Inr ts \<and>
           list_all2
             (\<lambda>c t. case c of
                 Nullish \<Rightarrow> False
               | Value n \<Rightarrow>
                   node t = n \<and>
                   (camelize ''key'' = ''key'' \<or> declared camelize (node_entries n) ''key'' = None
                    \<longrightarrow> key t =
                          (case declared camelize (node_entries n) ''key'' of
                             Some v \<Rightarrow> v
                           | None \<Rightarrow> if vnode_key n = JUndefined then JUndefined
                                     else JStr (js_String (vnode_key n)))))
             (filter isValidElement children) ts"
proof -
  let ?ns = "valid_nodes isValidElement children"
  let ?R = "\<lambda>c t. case c of
                 Nullish \<Rightarrow> False
               | Value n \<Rightarrow>
                   node t = n \<and>
                   (camelize ''key'' = ''key'' \<or> declared camelize (node_entries n) ''key'' = None
                    \<longrightarrow> key t =
                          (case declared camelize (node_entries n) ''key'' of
                             Some v \<Rightarrow> v
                           | None \<Rightarrow> if vnode_key n = JUndefined then JUndefined
                                     else JStr (js_String (vnode_key n))))"
  have f: "filter isValidElement children = map Value ?ns"
    using assms by (simp add: filter_valid_nodes)
  have p: "parseTabList isValidElement camelize children = Inr (map (make_tab camelize) ?ns)"
    using assms by (simp add: parseTabList_valid_nodes)
  have rel: "?R (Value n) (make_tab camelize n)" for n
    using make_tab_key [of camelize n] by (simp add: make_tab_node)
  have "list_all2 (\<lambda>n n'. ?R (Value n) (make_tab camelize n')) ?ns ?ns"
    by (rule list.rel_refl) (rule rel)
  then have "list_all2 ?R (map Value ?ns) (map (make_tab camelize) ?ns)"
    by (simp only: list_all2_map1 list_all2_map2)
  with f p show ?thesis by simp
qed

text \<open>
  Five children, of which a \<open>null\<close> and a text node are dropped; one pane has the key
  \<open>undefined\<close> and one the key \<open>null\<close>.
\<close>

theorem parseTabList_total_witness:
  "(let isValidElement = (\<lambda>c. c \<noteq> Nullish \<and> c \<noteq> Value (example_pane ''text''));
        keyless = \<lparr> vnode_key = JUndefined, vnode_props = Some [(''tab'', JStr ''T'')],
                    vnode_children = None \<rparr>;
        nullkey = \<lparr> vnode_key = JNull, vnode_props = None, vnode_children = None \<rparr>;
        children = [Value (example_pane ''a''), Nullish, Value keyless,
                    Value (example_pane ''text''), Value nullkey]
    in \<not> isValidElement Nullish \<and>
       (\<exists>ts. parseTabList isValidElement (\<lambda>k. k) children = Inr ts \<and>
             map node ts = [example_pane ''a'', keyless, nullkey] \<and>
             map key ts = [JStr ''a'', JUndefined, JStr ''null'']))"
proof -
  define isValidElement where
    "isValidElement = (\<lambda>c. c \<noteq> Nullish \<and> c \<noteq> Value (example_pane ''text''))"
  define keyless where
    "keyless = \<lparr> vnode_key = JUndefined, vnode_props = Some [(''tab'', JStr ''T'')],
                 vnode_children = None \<rparr>"
  define nullkey where
    "nullkey = \<lparr> vnode_key = JNull, vnode_props = None, vnode_children = None \<rparr>"
  define children where
    "children = [Value (example_pane ''a''), Nullish, Value keyless,
                 Value (example_pane ''text''), Value nullkey]"
  have nv: "\<not> isValidElement Nullish" by (simp add: isValidElement_def)
  have fl: "filter isValidElement children =
              [Value (example_pane ''a''), Value keyless, Value nullkey]"
    by (simp add: isValidElement_def children_def keyless_def nullkey_def example_pane_def)
  have d: "declared (\<lambda>k. k) (node_entries (example_pane ''a'')) ''key'' = None"
    "declared (\<lambda>k. k) (node_entries keyless) ''key'' = None"
    "declared (\<lambda>k. k) (node_entries nullkey) ''key'' = None"
    "vnode_key (example_pane ''a'') = JStr ''a''" "vnode_key keyless = JUndefined"
    "vnode_key nullkey = JNull"
    by (simp_all add: node_entries_def example_pane_def keyless_def nullkey_def)
  from parseTabList_total [of isValidElement "\<lambda>k. k" children, OF nv]
  have "\<exists>ts. parseTabList isValidElement (\<lambda>k. k) children = Inr ts \<and>
             map node ts = [example_pane ''a'', keyless, nullkey] \<and>
             map key ts = [JStr ''a'', JUndefined, JStr ''null'']"
    unfolding fl by (auto simp add: list_all2_Cons1 d)
  with nv show ?thesis
    unfolding Let_def isValidElement_def [symmetric] keyless_def [symmetric]
      nullkey_def [symmetric] children_def [symmetric]
    by simp
qed

section \<open>Properties of the component\<close>

subsection \<open>\<open>findIndex\<close> and the clamped index\<close>

lemma findIndex_from_miss:
  "\<forall>x \<in> set xs. \<not> P x \<Longrightarrow> findIndex_from P xs i = - 1"
  by (induction xs arbitrary: i) auto

lemma findIndex_from_hit:
  "\<exists>x \<in> set xs. P x \<Longrightarrow> 0 \<le> i \<Longrightarrow>
   i \<le> findIndex_from P xs i \<and> findIndex_from P xs i < i + int (length xs) \<and>
   P (xs ! nat (findIndex_from P xs i - i))"
proof (induction xs arbitrary: i)
  case Nil
  then show ?case by simp
next
  case (Cons x xs)
  show ?case
  proof (cases "P x")
    case True
    then show ?thesis by simp
  next
    case False
    with Cons.prems have ex: "\<exists>x \<in> set xs. P x" by simp
    from Cons.prems have i1: "0 \<le> i + 1" by simp
    from Cons.IH [OF ex i1]
    have a: "i + 1 \<le> findIndex_from P xs (i + 1)"
      and b: "findIndex_from P xs (i + 1) < i + 1 + int (length xs)"
      and c: "P (xs ! nat (findIndex_from P xs (i + 1) - (i + 1)))" by simp_all
    from a have "nat (findIndex_from P xs (i + 1) - i) =
                   Suc (nat (findIndex_from P xs (i + 1) - (i + 1)))"
      by simp
    with a b c False show ?thesis by simp
  qed
qed

lemma findIndex_miss_iff:
  "findIndex P xs = - 1 \<longleftrightarrow> (\<forall>x \<in> set xs. \<not> P x)"
proof
  assume m: "findIndex P xs = - 1"
  show "\<forall>x \<in> set xs. \<not> P x"
  proof (rule ccontr)
    assume "\<not> (\<forall>x \<in> set xs. \<not> P x)"
    then have "\<exists>x \<in> set xs. P x" by simp
    from findIndex_from_hit [OF this, of 0] m show False by (simp add: findIndex_def)
  qed
next
  assume "\<forall>x \<in> set xs. \<not> P x"
  then show "findIndex P xs = - 1" by (simp add: findIndex_def findIndex_from_miss)
qed

lemma findIndex_hit:
  assumes "\<exists>x \<in> set xs. P x"
  shows "0 \<le> findIndex P xs \<and> findIndex P xs < int (length xs) \<and> P (xs ! nat (findIndex P xs))"
  using findIndex_from_hit [OF assms, of 0] by (simp add: findIndex_def)

lemma findIndex_key_miss:
  "k \<notin> key ` set ts \<Longrightarrow> findIndex (\<lambda>t. key t = k) ts = - 1"
  unfolding findIndex_miss_iff by (metis imageI)

lemma findIndex_key_hit:
  "k \<in> key ` set ts \<Longrightarrow> findIndex (\<lambda>t. key t = k) ts \<noteq> - 1"
  unfolding findIndex_miss_iff by auto

lemma key_at_member:
  "0 \<le> i \<Longrightarrow> i < int (length ts) \<Longrightarrow> key_at ts i \<in> key ` set ts"
  by (simp add: key_at_def)

lemma key_at_empty: "key_at [] i = JUndefined"
  unfolding key_at_def by auto

lemma key_at_first: "key_at ts 0 = (case ts of [] \<Rightarrow> JUndefined | t # _ \<Rightarrow> key t)"
  by (cases ts) (simp_all add: key_at_def)

lemma clamp_in_range:
  "ts \<noteq> [] \<Longrightarrow>
   0 \<le> max 0 (min a (int (length ts) - 1)) \<and> max 0 (min a (int (length ts) - 1)) < int (length ts)"
  by (cases ts) auto

lemma key_example_tab: "key (example_tab k) = JStr k"
  by (simp add: example_tab_def example_pane_def make_tab_def camelize_props_def Let_def)

subsection \<open>The reconciling effect\<close>

text \<open>The state after a run of the effect, in its two cases.\<close>

lemma watchEffect_missing:
  assumes "mergedActiveKey props st \<notin> key ` set (tabs props)"
  shows "watchEffect props st =
           st\<lparr>innerActiveKey :=
                 key_at (tabs props) (max 0 (min (activeIndex st) (int (length (tabs props)) - 1))),
               trace := trace st @
                 [ActiveKeySet (key_at (tabs props)
                    (max 0 (min (activeIndex st) (int (length (tabs props)) - 1))))],
               activeIndex := max 0 (min (activeIndex st) (int (length (tabs props)) - 1))\<rparr>"
  using findIndex_key_miss [OF assms]
  by (simp add: watchEffect_def Let_def setMergedActiveKey_def setActiveIndex_def)

lemma watchEffect_present:
  assumes "mergedActiveKey props st \<in> key ` set (tabs props)"
  shows "watchEffect props st =
           st\<lparr>activeIndex := findIndex (\<lambda>t. key t = mergedActiveKey props st) (tabs props)\<rparr>"
  using findIndex_key_hit [OF assms]
  by (simp add: watchEffect_def Let_def setActiveIndex_def)

text \<open>
  C1, as stated, fails under external control: with the tabs \<open>a, b\<close>, the prop
  \<open>activeKey = 'z'\<close> and the previous index 5, the active key is not found, the
  clamped index is 1 with the key \<open>'b'\<close>, and the merged active key is still \<open>'z'\<close>.
\<close>

theorem watchEffect_controlled_clamp_counterexample:
  "mergedActiveKey (example_props\<lparr>tabs := [example_tab ''a'', example_tab ''b''], activeKey := JStr ''z''\<rparr>)
     (example_state\<lparr>activeIndex := 5\<rparr>)
     \<notin> key ` set (tabs (example_props\<lparr>tabs := [example_tab ''a'', example_tab ''b''], activeKey := JStr ''z''\<rparr>)) \<and>
   key_at (tabs (example_props\<lparr>tabs := [example_tab ''a'', example_tab ''b''], activeKey := JStr ''z''\<rparr>))
     (activeIndex
        (watchEffect (example_props\<lparr>tabs := [example_tab ''a'', example_tab ''b''], activeKey := JStr ''z''\<rparr>)
           (example_state\<lparr>activeIndex := 5\<rparr>))) = JStr ''b'' \<and>
   mergedActiveKey (example_props\<lparr>tabs := [example_tab ''a'', example_tab ''b''], activeKey := JStr ''z''\<rparr>)
     (watchEffect (example_props\<lparr>tabs := [example_tab ''a'', example_tab ''b''], activeKey := JStr ''z''\<rparr>)
        (example_state\<lparr>activeIndex := 5\<rparr>)) = JStr ''z''"
proof -
  let ?p = "example_props\<lparr>tabs := [example_tab ''a'', example_tab ''b''], activeKey := JStr ''z''\<rparr>"
  let ?s = "example_state\<lparr>activeIndex := 5\<rparr>"
  have m: "mergedActiveKey ?p ?s \<notin> key ` set (tabs ?p)"
    by (simp add: example_props_def mergedActiveKey_def merged_value_def key_example_tab)
  have "activeIndex (watchEffect ?p ?s) =
          max 0 (min (activeIndex ?s) (int (length (tabs ?p)) - 1))"
    by (subst watchEffect_missing [OF m]) simp
  also have "\<dots> = 1"
    by (simp add: example_props_def example_state_def)
  finally have i: "activeIndex (watchEffect ?p ?s) = 1" .
  have k: "key_at (tabs ?p) 1 = JStr ''b''"
    by (simp add: example_props_def key_at_def key_example_tab)
  have z: "mergedActiveKey ?p (watchEffect ?p ?s) = JStr ''z''"
    by (simp add: example_props_def mergedActiveKey_def merged_value_def)
  from m i k z show ?thesis by simp
qed

text \<open>
  C1, amended: when the merged active key is not the key of any tab, a run of the effect
  clamps the previous active index into \<open>[0, length - 1]\<close>, stores the clamped index,
  and calls the setter of the active key with the key of the tab at that index; for the
  empty list the index is \<open>0\<close> and the key passed is \<open>undefined\<close>. Without an
  \<open>activeKey\<close> prop the merged active key is then that key; with an \<open>activeKey\<close>
  prop it stays the supplied value.
\<close>

theorem watchEffect_clamps:
  assumes "mergedActiveKey props st \<notin> key ` set (tabs props)"
  shows "let n = int (length (tabs props));
             i = (if activeIndex st < 0 then 0
                  else if n - 1 < activeIndex st then n - 1 else activeIndex st);
             st' = watchEffect props st
         in (tabs props \<noteq> [] \<longrightarrow>
               0 \<le> i \<and> i \<le> n - 1 \<and> activeIndex st' = i \<and>
               innerActiveKey st' = key (tabs props ! nat i) \<and>
               trace st' = trace st @ [ActiveKeySet (key (tabs props ! nat i))]) \<and>
            (tabs props = [] \<longrightarrow>
               activeIndex st' = 0 \<and> innerActiveKey st' = JUndefined \<and>
               trace st' = trace st @ [ActiveKeySet JUndefined]) \<and>
            (activeKey props = JUndefined \<longrightarrow> mergedActiveKey props st' = innerActiveKey st') \<and>
            (activeKey props \<noteq> JUndefined \<longrightarrow> mergedActiveKey props st' = activeKey props)"
proof (cases "tabs props = []")
  case True
  then show ?thesis
    by (simp add: watchEffect_missing [OF assms] Let_def key_at_def mergedActiveKey_def
        merged_value_def)
next
  case False
  then have "0 < length (tabs props)" by simp
  then show ?thesis
    by (auto simp add: watchEffect_missing [OF assms] Let_def key_at_def mergedActiveKey_def
        merged_value_def max_def min_def)
qed

text \<open>
  The tabs were \<open>a, b, c\<close> with \<open>c\<close> active at index 2, and \<open>c\<close> is removed: once
  without and once with the prop \<open>activeKey = 'c'\<close>.
\<close>

theorem watchEffect_clamps_witness:
  "(let props = example_props\<lparr>tabs := [example_tab ''a'', example_tab ''b'']\<rparr>;
        st = example_state\<lparr>innerActiveKey := JStr ''c'', activeIndex := 2\<rparr>;
        controlled = example_props\<lparr>tabs := [example_tab ''a'', example_tab ''b''],
                                   activeKey := JStr ''c''\<rparr>
    in mergedActiveKey props st \<notin> key ` set (tabs props) \<and>
       activeIndex (watchEffect props st) = 1 \<and>
       innerActiveKey (watchEffect props st) = JStr ''b'' \<and>
       mergedActiveKey props (watchEffect props st) = JStr ''b'' \<and>
       mergedActiveKey controlled st \<notin> key ` set (tabs controlled) \<and>
       activeIndex (watchEffect controlled st) = 1 \<and>
       innerActiveKey (watchEffect controlled st) = JStr ''b'' \<and>
       mergedActiveKey controlled (watchEffect controlled st) = JStr ''c'')"
proof -
  define props where "props = example_props\<lparr>tabs := [example_tab ''a'', example_tab ''b'']\<rparr>"
  define st where "st = example_state\<lparr>innerActiveKey := JStr ''c'', activeIndex := 2\<rparr>"
  define controlled where
    "controlled = example_props\<lparr>tabs := [example_tab ''a'', example_tab ''b''],
                                activeKey := JStr ''c''\<rparr>"
  have h: "mergedActiveKey props st \<notin> key ` set (tabs props)"
    by (simp add: props_def st_def example_props_def example_state_def mergedActiveKey_def
        merged_value_def key_example_tab)
  have hc: "mergedActiveKey controlled st \<notin> key ` set (tabs controlled)"
    by (simp add: controlled_def st_def example_props_def example_state_def mergedActiveKey_def
        merged_value_def key_example_tab)
  have t: "tabs props = [example_tab ''a'', example_tab ''b'']" "activeKey props = JUndefined"
    "activeIndex st = 2"
    "tabs controlled = [example_tab ''a'', example_tab ''b'']" "activeKey controlled = JStr ''c''"
    by (simp_all add: props_def controlled_def st_def example_props_def example_state_def)
  from watchEffect_clamps [OF h]
  have 1: "activeIndex (watchEffect props st) = 1 \<and>
       innerActiveKey (watchEffect props st) = JStr ''b'' \<and>
       mergedActiveKey props (watchEffect props st) = JStr ''b''"
    by (simp add: Let_def t key_example_tab)
  from watchEffect_clamps [OF hc]
  have 2: "activeIndex (watchEffect controlled st) = 1 \<and>
       innerActiveKey (watchEffect controlled st) = JStr ''b'' \<and>
       mergedActiveKey controlled (watchEffect controlled st) = JStr ''c''"
    by (simp add: Let_def t key_example_tab)
  from h hc 1 2 show ?thesis unfolding Let_def props_def st_def controlled_def by simp
qed

text \<open>
  C3, as stated, fails under external control: with the tab \<open>a\<close> and the prop
  \<open>activeKey = 'z'\<close>, after the first run of the effect the merged active key is still
  \<open>'z'\<close>, which is no tab's key and is not the key at the clamped index.
\<close>

theorem watchEffect_controlled_counterexample:
  "mergedActiveKey (example_props\<lparr>tabs := [example_tab ''a''], activeKey := JStr ''z''\<rparr>)
     (watchEffect (example_props\<lparr>tabs := [example_tab ''a''], activeKey := JStr ''z''\<rparr>)
        (init_state (example_props\<lparr>tabs := [example_tab ''a''], activeKey := JStr ''z''\<rparr>)))
     = JStr ''z'' \<and>
   JStr ''z'' \<notin> key ` set (tabs (example_props\<lparr>tabs := [example_tab ''a''], activeKey := JStr ''z''\<rparr>)) \<and>
   JStr ''z'' \<noteq>
     key_at (tabs (example_props\<lparr>tabs := [example_tab ''a''], activeKey := JStr ''z''\<rparr>))
       (max 0 (min (activeIndex (init_state (example_props\<lparr>tabs := [example_tab ''a''], activeKey := JStr ''z''\<rparr>)))
          (int (length (tabs (example_props\<lparr>tabs := [example_tab ''a''], activeKey := JStr ''z''\<rparr>))) - 1)))"
  by (simp add: example_props_def mergedActiveKey_def merged_value_def key_at_def key_example_tab)

text \<open>
  C3, amended: without an \<open>activeKey\<close> prop, after a run of the effect the merged active
  key is the key of a tab of the list or the key at the clamped index; it is the key of a
  tab whenever the list is not empty, and \<open>undefined\<close> when the list is empty. With an
  \<open>activeKey\<close> prop the merged active key is the supplied value, whether or not a tab
  has it.
\<close>

theorem watchEffect_active_key_invariant:
  "(activeKey props = JUndefined \<longrightarrow>
      (mergedActiveKey props (watchEffect props st) \<in> key ` set (tabs props) \<or>
       mergedActiveKey props (watchEffect props st) =
         key_at (tabs props) (max 0 (min (activeIndex st) (int (length (tabs props)) - 1)))) \<and>
      (tabs props \<noteq> [] \<longrightarrow> mergedActiveKey props (watchEffect props st) \<in> key ` set (tabs props)) \<and>
      (tabs props = [] \<longrightarrow> mergedActiveKey props (watchEffect props st) = JUndefined)) \<and>
   (activeKey props \<noteq> JUndefined \<longrightarrow>
      mergedActiveKey props (watchEffect props st) = activeKey props)"
proof (intro conjI impI)
  assume c: "activeKey props \<noteq> JUndefined"
  then show "mergedActiveKey props (watchEffect props st) = activeKey props"
    by (simp add: mergedActiveKey_def merged_value_def)
next
  assume u: "activeKey props = JUndefined"
  have inner: "mergedActiveKey props s = innerActiveKey s" for s
    using u by (simp add: mergedActiveKey_def merged_value_def)
  let ?i = "max 0 (min (activeIndex st) (int (length (tabs props)) - 1))"
  have cases: "mergedActiveKey props (watchEffect props st) \<in> key ` set (tabs props) \<or>
               (mergedActiveKey props st \<notin> key ` set (tabs props) \<and>
                mergedActiveKey props (watchEffect props st) = key_at (tabs props) ?i)"
  proof (cases "mergedActiveKey props st \<in> key ` set (tabs props)")
    case True
    then show ?thesis by (simp add: watchEffect_present inner)
  next
    case False
    then show ?thesis by (simp add: watchEffect_missing inner)
  qed
  then show "mergedActiveKey props (watchEffect props st) \<in> key ` set (tabs props) \<or>
       mergedActiveKey props (watchEffect props st) = key_at (tabs props) ?i" by blast
  {
    assume ne: "tabs props \<noteq> []"
    from clamp_in_range [OF ne, of "activeIndex st"]
    have "key_at (tabs props) ?i \<in> key ` set (tabs props)" by (simp add: key_at_member)
    with cases show "mergedActiveKey props (watchEffect props st) \<in> key ` set (tabs props)"
      by auto
  }
  {
    assume e: "tabs props = []"
    with cases show "mergedActiveKey props (watchEffect props st) = JUndefined"
      by (auto simp: key_at_empty)
  }
qed

theorem watchEffect_active_key_invariant_witness:
  "(let props = example_props\<lparr>tabs := [example_tab ''a'', example_tab ''b'']\<rparr>;
        st = example_state\<lparr>innerActiveKey := JStr ''c'', activeIndex := 2\<rparr>;
        controlled = example_props\<lparr>tabs := [example_tab ''a''], activeKey := JStr ''z''\<rparr>
    in activeKey props = JUndefined \<and> tabs props \<noteq> [] \<and>
       mergedActiveKey props (watchEffect props st) \<in> key ` set (tabs props) \<and>
       activeKey controlled \<noteq> JUndefined \<and>
       mergedActiveKey controlled (watchEffect controlled (init_state controlled)) = JStr ''z'')"
proof -
  define props where "props = example_props\<lparr>tabs := [example_tab ''a'', example_tab ''b'']\<rparr>"
  define st where "st = example_state\<lparr>innerActiveKey := JStr ''c'', activeIndex := 2\<rparr>"
  define controlled where
    "controlled = example_props\<lparr>tabs := [example_tab ''a''], activeKey := JStr ''z''\<rparr>"
  have u: "activeKey props = JUndefined" "tabs props \<noteq> []"
    by (simp_all add: props_def example_props_def)
  have c: "activeKey controlled \<noteq> JUndefined" "activeKey controlled = JStr ''z''"
    by (simp_all add: controlled_def example_props_def)
  from watchEffect_active_key_invariant [of props st] u
  have 1: "mergedActiveKey props (watchEffect props st) \<in> key ` set (tabs props)" by simp
  from watchEffect_active_key_invariant [of controlled "init_state controlled"] c
  have 2: "mergedActiveKey controlled (watchEffect controlled (init_state controlled)) = JStr ''z''"
    by simp
  from u c 1 2 show ?thesis unfolding Let_def props_def st_def controlled_def by simp
qed

subsection \<open>Precedence of the active key\<close>

text \<open>
  C7: the merged active key is the \<open>activeKey\<close> prop when it is supplied, and the
  internal state otherwise; the internal state starts from \<open>defaultActiveKey\<close> and,
  when that is unset, from the key of the first tab (\<open>undefined\<close> without tabs).
\<close>

theorem mergedActiveKey_precedence:
  "mergedActiveKey props st =
     (if activeKey props \<noteq> JUndefined then activeKey props else innerActiveKey st) \<and>
   innerActiveKey (init_state props) =
     (if defaultActiveKey props \<noteq> JUndefined then defaultActiveKey props
      else case tabs props of [] \<Rightarrow> JUndefined | t # _ \<Rightarrow> key t) \<and>
   mergedActiveKey props (init_state props) =
     (if activeKey props \<noteq> JUndefined then activeKey props
      else if defaultActiveKey props \<noteq> JUndefined then defaultActiveKey props
      else case tabs props of [] \<Rightarrow> JUndefined | t # _ \<Rightarrow> key t)"
  by (simp add: mergedActiveKey_def merged_value_def init_state_def initial_inner_def Let_def
      key_at_first)

theorem mergedActiveKey_precedence_witness:
  "mergedActiveKey
     (example_props\<lparr>tabs := [example_tab ''a'', example_tab ''b''], activeKey := JStr ''b'',
                     defaultActiveKey := JStr ''a''\<rparr>)
     (init_state (example_props\<lparr>tabs := [example_tab ''a'', example_tab ''b''],
                     activeKey := JStr ''b'', defaultActiveKey := JStr ''a''\<rparr>)) = JStr ''b'' \<and>
   mergedActiveKey
     (example_props\<lparr>tabs := [example_tab ''a'', example_tab ''b''], defaultActiveKey := JStr ''b''\<rparr>)
     (init_state (example_props\<lparr>tabs := [example_tab ''a'', example_tab ''b''],
                     defaultActiveKey := JStr ''b''\<rparr>)) = JStr ''b'' \<and>
   mergedActiveKey
     (example_props\<lparr>tabs := [example_tab ''a'', example_tab ''b'']\<rparr>)
     (init_state (example_props\<lparr>tabs := [example_tab ''a'', example_tab ''b'']\<rparr>)) = JStr ''a'' \<and>
   mergedActiveKey example_props (init_state example_props) = JUndefined"
  using mergedActiveKey_precedence
    [of "example_props\<lparr>tabs := [example_tab ''a'', example_tab ''b''], activeKey := JStr ''b'',
                     defaultActiveKey := JStr ''a''\<rparr>"]
    mergedActiveKey_precedence
    [of "example_props\<lparr>tabs := [example_tab ''a'', example_tab ''b''], defaultActiveKey := JStr ''b''\<rparr>"]
    mergedActiveKey_precedence
    [of "example_props\<lparr>tabs := [example_tab ''a'', example_tab ''b'']\<rparr>"]
    mergedActiveKey_precedence [of example_props]
  by (simp add: example_props_def key_example_tab)

subsection \<open>Presentation\<close>

text \<open>
  C2: \<open>animated === false\<close> gives both flags false, \<open>animated === true\<close> gives both
  true, and an object is merged over the defaults \<open>{inkBar: true, tabPane: false}\<close>:
  every property the object has overrides the default.
\<close>

theorem mergedAnimated_cases:
  "mergedAnimated (AnimatedBool False) = [''inkBar'' \<mapsto> JBool False, ''tabPane'' \<mapsto> JBool False] \<and>
   mergedAnimated (AnimatedBool True) = [''inkBar'' \<mapsto> JBool True, ''tabPane'' \<mapsto> JBool True] \<and>
   mergedAnimated (AnimatedObject obj) k =
     (case obj k of
        Some v \<Rightarrow> Some v
      | None \<Rightarrow> [''inkBar'' \<mapsto> JBool True, ''tabPane'' \<mapsto> JBool False] k)"
  by (simp add: mergedAnimated_def map_add_def split: option.splits)

theorem mergedAnimated_cases_witness:
  "get_prop (mergedAnimated (AnimatedObject [''tabPane'' \<mapsto> JBool True])) ''inkBar'' = JBool True \<and>
   get_prop (mergedAnimated (AnimatedObject [''tabPane'' \<mapsto> JBool True])) ''tabPane'' = JBool True \<and>
   get_prop (mergedAnimated (AnimatedObject Map.empty)) ''tabPane'' = JBool False \<and>
   get_prop (mergedAnimated (AnimatedBool False)) ''inkBar'' = JBool False"
  using mergedAnimated_cases [of "[''tabPane'' \<mapsto> JBool True]" "''inkBar''"]
    mergedAnimated_cases [of "[''tabPane'' \<mapsto> JBool True]" "''tabPane''"]
    mergedAnimated_cases [of Map.empty "''tabPane''"]
  by (simp add: get_prop_def)

text \<open>
  C5: the effective tab position is \<open>'top'\<close> when the mobile flag is set and
  \<open>tabPosition\<close> is neither \<open>'left'\<close> nor \<open>'right'\<close>, and \<open>tabPosition\<close> itself
  otherwise.
\<close>

theorem mergedTabPosition_cases:
  "mergedTabPosition props st =
     (if mobile st \<and> tabPosition props \<noteq> JStr ''left'' \<and> tabPosition props \<noteq> JStr ''right''
      then JStr ''top'' else tabPosition props)"
  by (simp add: mergedTabPosition_def)

theorem mergedTabPosition_cases_witness:
  "mergedTabPosition (example_props\<lparr>tabPosition := JStr ''bottom''\<rparr>) (example_state\<lparr>mobile := True\<rparr>)
     = JStr ''top'' \<and>
   mergedTabPosition (example_props\<lparr>tabPosition := JStr ''left''\<rparr>) (example_state\<lparr>mobile := True\<rparr>)
     = JStr ''left'' \<and>
   mergedTabPosition (example_props\<lparr>tabPosition := JStr ''bottom''\<rparr>) example_state
     = JStr ''bottom''"
  using mergedTabPosition_cases [of "example_props\<lparr>tabPosition := JStr ''bottom''\<rparr>" "example_state\<lparr>mobile := True\<rparr>"]
    mergedTabPosition_cases [of "example_props\<lparr>tabPosition := JStr ''left''\<rparr>" "example_state\<lparr>mobile := True\<rparr>"]
    mergedTabPosition_cases [of "example_props\<lparr>tabPosition := JStr ''bottom''\<rparr>" example_state]
  by (simp add: example_props_def example_state_def)

subsection \<open>Events\<close>




text \<open>
  C8: for the type \<open>'editable-card'\<close> with an \<open>onEdit\<close> handler, an add or remove
  interaction calls that handler once, with the edit type as second argument and, as
  first argument, the event for \<open>'add'\<close> and the key of the tab for \<open>'remove'\<close>.
\<close>

theorem editable_onEdit_payload:
  assumes "props_type props = JStr ''editable-card''" and "onEdit props = Some edit"
  shows "\<exists>cfg. editable props = Some cfg \<and>
           trace (editable_onEdit cfg ''add'' k event st) =
             trace st @ [Called edit [event, JStr ''add'']] \<and>
           trace (editable_onEdit cfg ''remove'' k event st) =
             trace st @ [Called edit [k, JStr ''remove'']]"
  using assms by (simp add: editable_def optional_call_def)

theorem editable_onEdit_payload_witness:
  "props_type (example_props\<lparr>props_type := JStr ''editable-card'', onEdit := Some 3\<rparr>)
     = JStr ''editable-card'' \<and>
   onEdit (example_props\<lparr>props_type := JStr ''editable-card'', onEdit := Some 3\<rparr>) = Some 3 \<and>
   (\<exists>cfg. editable (example_props\<lparr>props_type := JStr ''editable-card'', onEdit := Some 3\<rparr>)
            = Some cfg \<and>
      trace (editable_onEdit cfg ''add'' JUndefined (JRef 7) example_state) =
        [Called 3 [JRef 7, JStr ''add'']] \<and>
      trace (editable_onEdit cfg ''remove'' (JStr ''b'') (JRef 7) example_state) =
        [Called 3 [JStr ''b'', JStr ''remove'']])"
proof -
  let ?p = "example_props\<lparr>props_type := JStr ''editable-card'', onEdit := Some 3\<rparr>"
  have a: "props_type ?p = JStr ''editable-card''" and b: "onEdit ?p = Some 3"
    by (simp_all add: example_props_def)
  have add: "trace example_state = []" by (simp add: example_state_def)
  from editable_onEdit_payload [OF a b, of JUndefined "JRef 7" example_state]
    editable_onEdit_payload [OF a b, of "JStr ''b''" "JRef 7" example_state]
  have "\<exists>cfg. editable ?p = Some cfg \<and>
      trace (editable_onEdit cfg ''add'' JUndefined (JRef 7) example_state) =
        [Called 3 [JRef 7, JStr ''add'']] \<and>
      trace (editable_onEdit cfg ''remove'' (JStr ''b'') (JRef 7) example_state) =
        [Called 3 [JStr ''b'', JStr ''remove'']]"
    unfolding add by auto
  with a b show ?thesis by simp
qed

subsection \<open>The accessibility id\<close>

lemma of_char_digit_char:
  assumes "d < 10"
  shows "of_char (digit_char d) = (48 + d :: nat)"
proof -
  from assms have "d \<in> {0, 1, 2, 3, 4, 5, 6, 7, 8, 9}" by auto
  then show ?thesis by (auto simp: digit_char_def)
qed

lemma digits_value_decimal_digits: "digits_value (decimal_digits n) = n"
proof (induction n rule: decimal_digits.induct)
  case (1 n)
  show ?case
  proof (cases "n < 10")
    case True
    then show ?thesis
      by (subst decimal_digits.simps) (simp add: digits_value_def of_char_digit_char)
  next
    case False
    with 1 have ih: "digits_value (decimal_digits (n div 10)) = n div 10" by simp
    have m: "n mod 10 < 10" by simp
    have "digits_value (decimal_digits n) =
            10 * digits_value (decimal_digits (n div 10)) + (of_char (digit_char (n mod 10)) - 48)"
      using False by (subst decimal_digits.simps) (simp add: digits_value_def)
    also have "\<dots> = 10 * (n div 10) + n mod 10"
      using ih of_char_digit_char [OF m] by simp
    finally show ?thesis by simp
  qed
qed

lemma decimal_digits_inj: "decimal_digits m = decimal_digits n \<Longrightarrow> m = n"
  by (metis digits_value_decimal_digits)

text \<open>
  C9, as stated, fails: under \<open>NODE_ENV === 'test'\<close> two components mounted one after
  the other without an id both get \<open>'rc-tabs-test'\<close>; and an id supplied as the empty
  string is falsy, so the counter is consumed.
\<close>

theorem onMounted_test_env_counterexample:
  "mergedId example_props (snd (onMounted (JStr ''test'') example_props (0, example_state))) =
     JStr ''rc-tabs-test'' \<and>
   fst (onMounted (JStr ''test'') example_props (0, example_state)) = 1 \<and>
   mergedId example_props (snd (onMounted (JStr ''test'') example_props (1, example_state))) =
     JStr ''rc-tabs-test'' \<and>
   fst (onMounted (JStr ''production'') (example_props\<lparr>props_id := JStr []\<rparr>) (0, example_state)) = 1"
  by (simp add: onMounted_def example_props_def example_state_def mergedId_def merged_value_def
      setMergedId_def)

text \<open>
  C9, amended: when \<open>props.id\<close> is falsy, mounting sets the id once and adds one to
  the counter; the id is \<open>'rc-tabs-'\<close> followed by the decimal value of the counter,
  or \<open>'rc-tabs-test'\<close> under \<open>NODE_ENV === 'test'\<close>. When \<open>props.id\<close> is truthy,
  mounting changes neither the counter nor the state. Outside the test environment, two
  components without an id prop that are mounted at different values of the counter have
  different merged ids.
\<close>

theorem onMounted_generates_id:
  "(falsy (props_id props) \<longrightarrow>
      fst (onMounted node_env props (uuid, st)) = uuid + 1 \<and>
      innerId (snd (onMounted node_env props (uuid, st))) =
        JStr (''rc-tabs-'' @ (if node_env = JStr ''test'' then ''test'' else decimal_digits uuid)) \<and>
      trace (snd (onMounted node_env props (uuid, st))) =
        trace st @ [IdSet (innerId (snd (onMounted node_env props (uuid, st))))]) \<and>
   (\<not> falsy (props_id props) \<longrightarrow> onMounted node_env props (uuid, st) = (uuid, st)) \<and>
   (node_env \<noteq> JStr ''test'' \<and> props_id props = JUndefined \<and> props_id props' = JUndefined \<and>
    uuid \<noteq> uuid' \<longrightarrow>
      mergedId props (snd (onMounted node_env props (uuid, st))) \<noteq>
      mergedId props' (snd (onMounted node_env props' (uuid', st'))))"
proof (intro conjI impI)
  assume "falsy (props_id props)"
  then show "fst (onMounted node_env props (uuid, st)) = uuid + 1"
    and "innerId (snd (onMounted node_env props (uuid, st))) =
        JStr (''rc-tabs-'' @ (if node_env = JStr ''test'' then ''test'' else decimal_digits uuid))"
    and "trace (snd (onMounted node_env props (uuid, st))) =
        trace st @ [IdSet (innerId (snd (onMounted node_env props (uuid, st))))]"
    by (simp_all add: onMounted_def setMergedId_def)
next
  assume "\<not> falsy (props_id props)"
  then show "onMounted node_env props (uuid, st) = (uuid, st)"
    by (simp add: onMounted_def)
next
  assume a: "node_env \<noteq> JStr ''test'' \<and> props_id props = JUndefined \<and>
             props_id props' = JUndefined \<and> uuid \<noteq> uuid'"
  then have "decimal_digits uuid \<noteq> decimal_digits uuid'"
    using decimal_digits_inj by blast
  with a show "mergedId props (snd (onMounted node_env props (uuid, st))) \<noteq>
      mergedId props' (snd (onMounted node_env props' (uuid', st')))"
    by (simp add: onMounted_def setMergedId_def mergedId_def merged_value_def)
qed

theorem onMounted_generates_id_witness:
  "falsy (props_id example_props) \<and>
   fst (onMounted (JStr ''production'') example_props (0, example_state)) = 1 \<and>
   innerId (snd (onMounted (JStr ''production'') example_props (0, example_state))) =
     JStr ''rc-tabs-0'' \<and>
   trace (snd (onMounted (JStr ''production'') example_props (0, example_state))) =
     [IdSet (JStr ''rc-tabs-0'')] \<and>
   \<not> falsy (props_id (example_props\<lparr>props_id := JStr ''tabs-1''\<rparr>)) \<and>
   onMounted (JStr ''production'') (example_props\<lparr>props_id := JStr ''tabs-1''\<rparr>) (1, example_state)
     = (1, example_state) \<and>
   JStr ''production'' \<noteq> JStr ''test'' \<and> props_id example_props = JUndefined \<and> (0::nat) \<noteq> 1 \<and>
   mergedId example_props (snd (onMounted (JStr ''production'') example_props (0, example_state))) \<noteq>
   mergedId example_props (snd (onMounted (JStr ''production'') example_props (1, example_state)))"
proof -
  have f: "falsy (props_id example_props)" and u: "props_id example_props = JUndefined"
    by (simp_all add: example_props_def)
  have t: "\<not> falsy (props_id (example_props\<lparr>props_id := JStr ''tabs-1''\<rparr>))"
    by (simp add: example_props_def)
  have d0: "decimal_digits 0 = ''0''" by (simp add: decimal_digits.simps digit_char_def)
  from onMounted_generates_id [of example_props "JStr ''production''" 0 example_state] f
  have 1: "fst (onMounted (JStr ''production'') example_props (0, example_state)) = 1 \<and>
   innerId (snd (onMounted (JStr ''production'') example_props (0, example_state))) =
     JStr ''rc-tabs-0'' \<and>
   trace (snd (onMounted (JStr ''production'') example_props (0, example_state))) =
     [IdSet (JStr ''rc-tabs-0'')]"
    by (simp add: d0 example_state_def)
  from onMounted_generates_id
    [of "example_props\<lparr>props_id := JStr ''tabs-1''\<rparr>" "JStr ''production''" 1 example_state] t
  have 2: "onMounted (JStr ''production'') (example_props\<lparr>props_id := JStr ''tabs-1''\<rparr>)
             (1, example_state) = (1, example_state)"
    by simp
  from onMounted_generates_id
    [of example_props "JStr ''production''" 0 example_state example_props 1 example_state] u
  have 3: "mergedId example_props (snd (onMounted (JStr ''production'') example_props (0, example_state))) \<noteq>
   mergedId example_props (snd (onMounted (JStr ''production'') example_props (1, example_state)))"
    by simp
  from f u t 1 2 3 show ?thesis by simp
qed

end
